theory Spec2Isabelle
  imports Main "HOL-Library.Sublist"
begin

section \<open>JavaScript strings and the built-ins the source calls\<close>

text \<open>
  A JavaScript string is a sequence of UTF-16 code units. The model is \<^typ>\<open>string\<close>: one
  \<^typ>\<open>char\<close> per code unit, for the code units below 256 (ASCII and Latin-1). Every
  character the source itself writes (the template, the placeholders, the messages, the
  escapes) is ASCII. \<open>trim\<close> and \<open>toLowerCase\<close> are modelled on that range as ECMAScript
  defines them there.
\<close>

abbreviation backslash :: char where "backslash \<equiv> CHR 0x5C"
abbreviation dquote :: char where "dquote \<equiv> CHR 0x22"
abbreviation squote :: char where "squote \<equiv> CHR 0x27"
abbreviation backtick :: char where "backtick \<equiv> CHR 0x60"
abbreviation newline :: char where "newline \<equiv> CHR 0x0A"

text \<open>
  \<open>String.prototype.trim\<close> strips WhiteSpace and LineTerminator code points from both ends.
  Below 256 these are TAB, LF, VT, FF, CR, SPACE and NBSP.
\<close>

definition isWhiteSpace :: "char \<Rightarrow> bool" where
  "isWhiteSpace c =
     (c = CHR 0x09 \<or> c = CHR 0x0A \<or> c = CHR 0x0B \<or> c = CHR 0x0C \<or> c = CHR 0x0D \<or>
      c = CHR 0x20 \<or> c = CHR 0xA0)"

definition js_trim :: "string \<Rightarrow> string" where
  "js_trim s = rev (dropWhile isWhiteSpace (rev (dropWhile isWhiteSpace s)))"

text \<open>
  \<open>String.prototype.toLowerCase\<close>: below 256 the code points with a lower-case mapping are
  A-Z and the Latin-1 capitals 0xC0-0xDE without the multiplication sign 0xD7; each maps
  to the code point 32 above it.
\<close>

definition lowerChar :: "char \<Rightarrow> char" where
  "lowerChar c =
     (let n = (of_char c :: nat) in
      if (65 \<le> n \<and> n \<le> 90) \<or> (192 \<le> n \<and> n \<le> 222 \<and> n \<noteq> 215)
      then char_of (n + 32) else c)"

definition js_toLowerCase :: "string \<Rightarrow> string" where
  "js_toLowerCase s = map lowerChar s"

text \<open>\<open>String.prototype.indexOf\<close>: the first position where the pattern starts.\<close>

fun indexOf :: "string \<Rightarrow> string \<Rightarrow> nat option" where
  "indexOf pat [] = (if pat = [] then Some 0 else None)"
| "indexOf pat (c # cs) =
     (if prefix pat (c # cs) then Some 0 else map_option Suc (indexOf pat cs))"

text \<open>
  \<open>GetSubstitution\<close> of ECMAScript, for a string pattern (no captures): in the replacement
  text \<open>$$\<close> stands for a dollar sign, \<open>$&\<close> for the matched text, \<open>$`\<close> for the text
  before the match and \<open>$'\<close> for the text after it; every other character, and a dollar
  sign followed by anything else, is copied.
\<close>

fun getSubstitution :: "string \<Rightarrow> string \<Rightarrow> nat \<Rightarrow> string \<Rightarrow> string" where
  "getSubstitution matched str position [] = []"
| "getSubstitution matched str position [c] = [c]"
| "getSubstitution matched str position (c # d # rest) =
     (if c = CHR ''$'' \<and> d = CHR ''$'' then
        CHR ''$'' # getSubstitution matched str position rest
      else if c = CHR ''$'' \<and> d = CHR ''&'' then
        matched @ getSubstitution matched str position rest
      else if c = CHR ''$'' \<and> d = backtick then
        take position str @ getSubstitution matched str position rest
      else if c = CHR ''$'' \<and> d = squote then
        drop (position + length matched) str @ getSubstitution matched str position rest
      else c # getSubstitution matched str position (d # rest))"

text \<open>
  \<open>str.replace(pattern, replacement)\<close> with a string pattern: only the first occurrence
  is replaced, by the substitution of the replacement text; without an occurrence the
  string is returned as it is.
\<close>

definition js_replace :: "string \<Rightarrow> string \<Rightarrow> string \<Rightarrow> string" where
  "js_replace pat replacement str =
     (case indexOf pat str of
        None \<Rightarrow> str
      | Some position \<Rightarrow>
          take position str @ getSubstitution pat str position replacement
            @ drop (position + length pat) str)"

text \<open>
  \<open>str.replace(/c/g, replacement)\<close> for a regular expression matching the single
  character \<open>c\<close>, with the global flag: every occurrence is replaced. The two replacement
  texts of the source hold no dollar sign, so their substitution is the text itself.
\<close>

definition js_replaceAllChar :: "char \<Rightarrow> string \<Rightarrow> string \<Rightarrow> string" where
  "js_replaceAllChar c replacement str =
     concat (map (\<lambda>x. if x = c then replacement else [x]) str)"

text \<open>\<open>Number\<close> to string, for the non-negative integers an HTTP status is.\<close>

fun string_of_nat :: "nat \<Rightarrow> string" where
  "string_of_nat n =
     (if n < 10 then [''0123456789'' ! n]
      else string_of_nat (n div 10) @ [''0123456789'' ! (n mod 10)])"

declare string_of_nat.simps [simp del]

section \<open>The query builder\<close>

text \<open>An \<open>Error\<close> object: its \<open>name\<close> and its \<open>message\<close>.\<close>

datatype js_error = JsError (err_name: string) (err_message: string)

definition LANG_OPTIONS :: "string list" where
  "LANG_OPTIONS = [''en'', ''nl'']"

definition PREDICATES :: "(string \<times> string) list" where
  "PREDICATES = [(''drug'', ''rdfs:label''), (''ade'', ''skos:prefLabel'')]"

definition SPARQL_TEMPLATE :: string where
  "SPARQL_TEMPLATE =
     ''PREFIX rdfs: <http://www.w3.org/2000/01/rdf-schema#>'' @ [newline] @
     ''PREFIX skos: <http://www.w3.org/2004/02/skos/core#>'' @ [newline] @
     [newline] @
     ''SELECT ?e (SUBSTR(STR(?label), 1, 150) AS ?shortLabel) WHERE {'' @ [newline] @
     ''  ?e <http://www.ontotext.com/plugins/autocomplete#query> \"q0\" .'' @ [newline] @
     ''  ?e qPred ?label .'' @ [newline] @
     ''  FILTER(lang(?label) = \"qLang\")'' @ [newline] @
     ''} LIMIT 10''"

definition escapeSparqlStringLiteral :: "string \<Rightarrow> string" where
  "escapeSparqlStringLiteral v =
     js_replaceAllChar dquote [backslash, dquote]
       (js_replaceAllChar backslash [backslash, backslash] v)"

text \<open>
  \<open>buildQuery\<close> throws an \<open>Error\<close> (\<open>Inl\<close>) or returns the query text (\<open>Inr\<close>). Its
  \<open>lang\<close> is a string here, so \<open>lang || ''\<close> is \<open>lang\<close> itself.
  \<open>Object.values(PREDICATES)\<close> is the list of the second components.
\<close>

definition buildQuery :: "string \<Rightarrow> string \<Rightarrow> string \<Rightarrow> js_error + string" where
  "buildQuery query predicate lang =
     (let normalizedLang = js_toLowerCase (js_trim lang) in
      if normalizedLang \<notin> set LANG_OPTIONS then
        Inl (JsError ''Error'' (''Unsupported language: '' @ lang @ ''. Expected en or nl.''))
      else if predicate \<notin> set (map snd PREDICATES) then
        Inl (JsError ''Error'' (''Unsupported predicate: '' @ predicate @ ''.''))
      else
        Inr (js_replace ''qLang'' normalizedLang
              (js_replace ''qPred'' predicate
                (js_replace ''q0'' (escapeSparqlStringLiteral query) SPARQL_TEMPLATE))))"

text \<open>
  Reading the contents of a quoted string literal back, as the specification words it:
  a backslash followed by a double quote is a double quote, and two backslashes are one
  backslash. A bare double quote would end the literal, and a backslash before anything
  else (or at the end) is neither of the two escapes: both are \<open>None\<close>.
\<close>

fun unescapeQuotedLiteral :: "string \<Rightarrow> string option" where
  "unescapeQuotedLiteral [] = Some []"
| "unescapeQuotedLiteral [c] = (if c = backslash \<or> c = dquote then None else Some [c])"
| "unescapeQuotedLiteral (c # d # rest) =
     (if c = backslash then
        (if d = backslash \<or> d = dquote then map_option ((#) d) (unescapeQuotedLiteral rest)
         else None)
      else if c = dquote then None
      else map_option ((#) c) (unescapeQuotedLiteral (d # rest)))"

text \<open>
  The template with its three slots filled, as the specification words the result of
  \<open>build\<close>: the search text, the predicate term and the language code in their slots
  and nothing else changed.
\<close>

definition spec_filled_template :: "string \<Rightarrow> string \<Rightarrow> string \<Rightarrow> string" where
  "spec_filled_template searchText predicateTerm languageCode =
     ''PREFIX rdfs: <http://www.w3.org/2000/01/rdf-schema#>'' @ [newline] @
     ''PREFIX skos: <http://www.w3.org/2004/02/skos/core#>'' @ [newline] @
     [newline] @
     ''SELECT ?e (SUBSTR(STR(?label), 1, 150) AS ?shortLabel) WHERE {'' @ [newline] @
     ''  ?e <http://www.ontotext.com/plugins/autocomplete#query> \"'' @ searchText @ ''\" .'' @ [newline] @
     ''  ?e '' @ predicateTerm @ '' ?label .'' @ [newline] @
     ''  FILTER(lang(?label) = \"'' @ languageCode @ ''\")'' @ [newline] @
     ''} LIMIT 10''"

text \<open>
  The pieces of the template around its three placeholders: the search placeholder and
  the language placeholder stand between double quotes, the predicate placeholder
  between spaces.
\<close>

definition template_head :: string where
  "template_head =
     ''PREFIX rdfs: <http://www.w3.org/2000/01/rdf-schema#>'' @ [newline] @
     ''PREFIX skos: <http://www.w3.org/2004/02/skos/core#>'' @ [newline] @
     [newline] @
     ''SELECT ?e (SUBSTR(STR(?label), 1, 150) AS ?shortLabel) WHERE {'' @ [newline] @
     ''  ?e <http://www.ontotext.com/plugins/autocomplete#query> ''"

definition template_tail :: string where
  "template_tail =
     '' .'' @ [newline] @
     ''  ?e qPred ?label .'' @ [newline] @
     ''  FILTER(lang(?label) = \"qLang\")'' @ [newline] @
     ''} LIMIT 10''"

definition tail_before_predicate :: string where
  "tail_before_predicate = '' .'' @ [newline] @ ''  ?e ''"

definition tail_before_language :: string where
  "tail_before_language = '' ?label .'' @ [newline] @ ''  FILTER(lang(?label) = ''"

definition tail_end :: string where
  "tail_end = '')'' @ [newline] @ ''} LIMIT 10''"

section \<open>The response of the endpoint\<close>

text \<open>
  A JSON value, as \<open>response.json()\<close> parses it. A number is kept as an integer: the
  source reads no number as one, and of a value under \<open>value\<close> only whether it is a
  string, \<open>null\<close> or something else decides what happens.
\<close>

datatype json =
    JNull
  | JBool bool
  | JNumber int
  | JString string
  | JArray "json list"
  | JObject "(string \<times> json) list"

text \<open>
  The payload is typed down to the array of bindings, as the SPARQL 1.1 Query Results
  JSON Format gives it; every level the source reads with \<open>?.\<close> may be missing
  (\<open>None\<close>): the payload, \<open>results\<close> and \<open>bindings\<close>. A row of the array is any JSON
  value: the source reads it with \<open>?.\<close> and \<open>??\<close>, which also take a row that is \<open>null\<close>
  or has no \<open>e\<close>, no \<open>shortLabel\<close> or no \<open>value\<close>.
\<close>

datatype sparql_results = SparqlResults (results_bindings: "json list option")

datatype payload = Payload (payload_results: "sparql_results option")

text \<open>A row as the source builds it: \<open>id\<close> is a string, \<open>label\<close> whatever \<open>value\<close> held.\<close>

record result_row =
  row_id :: string
  row_label :: json

text \<open>\<open>str.split(sep)\<close> for a separator of one character: never an empty array.\<close>

fun js_split :: "char \<Rightarrow> string \<Rightarrow> string list" where
  "js_split sep [] = [[]]"
| "js_split sep (c # cs) =
     (if c = sep then [] # js_split sep cs
      else (case js_split sep cs of
              [] \<Rightarrow> [[c]]
            | seg # segs \<Rightarrow> (c # seg) # segs))"

text \<open>\<open>array.pop()\<close>, the value it returns: \<open>undefined\<close> (\<open>None\<close>) on an empty array.\<close>

definition js_pop :: "'a list \<Rightarrow> 'a option" where
  "js_pop xs = (if xs = [] then None else Some (last xs))"

text \<open>
  \<open>v?.k\<close>: \<open>undefined\<close> (\<open>None\<close>) when \<open>v\<close> is \<open>undefined\<close> or \<open>null\<close>, else the
  property \<open>k\<close> of \<open>v\<close>. An object parsed from JSON has the members of its text, the last
  one of a repeated name; a boolean, a number, a string and an array have none of the
  properties the source reads (\<open>e\<close>, \<open>shortLabel\<close>, \<open>value\<close>).
\<close>

fun js_opt_get :: "json option \<Rightarrow> string \<Rightarrow> json option" where
  "js_opt_get (Some (JObject members)) k = map_of (rev members) k"
| "js_opt_get v k = None"

text \<open>\<open>x ?? d\<close>: \<open>d\<close> when \<open>x\<close> is \<open>undefined\<close> or \<open>null\<close>, else \<open>x\<close>.\<close>

definition nullish_or :: "json option \<Rightarrow> json \<Rightarrow> json" where
  "nullish_or x d = (case x of None \<Rightarrow> d | Some JNull \<Rightarrow> d | Some v \<Rightarrow> v)"

text \<open>\<open>result?.x?.value ?? ''\<close> for the variable \<open>x\<close> of a row.\<close>

definition value_or_empty :: "json \<Rightarrow> string \<Rightarrow> json" where
  "value_or_empty result x =
     nullish_or (js_opt_get (js_opt_get (Some result) x) ''value'') (JString [])"

text \<open>
  The function mapped over the bindings. \<open>uri.split\<close> is a function only when \<open>uri\<close> is a
  string: on any other value the call throws a \<open>TypeError\<close> (the message is the
  engine's). \<open>x || uri\<close> takes \<open>uri\<close> when \<open>x\<close> is \<open>undefined\<close> or the empty string.
\<close>

definition toRow :: "json \<Rightarrow> js_error + result_row" where
  "toRow result =
     (let uri = value_or_empty result ''e'';
          label = value_or_empty result ''shortLabel''
      in case uri of
           JString u \<Rightarrow>
             (let ident = (case js_pop (js_split CHR ''/'' u) of
                             None \<Rightarrow> u
                           | Some seg \<Rightarrow> if seg = [] then u else seg)
              in Inr \<lparr>row_id = ident, row_label = label\<rparr>)
         | _ \<Rightarrow> Inl (JsError ''TypeError'' ''uri.split is not a function''))"

text \<open>
  \<open>bindings.map(...)\<close> with that function: the rows in order, or the error of the first
  row on which the function throws.
\<close>

fun map_toRow :: "json list \<Rightarrow> js_error + result_row list" where
  "map_toRow [] = Inr []"
| "map_toRow (result # more_results) =
     (case toRow result of
        Inl err \<Rightarrow> Inl err
      | Inr row \<Rightarrow>
          (case map_toRow more_results of
             Inl err \<Rightarrow> Inl err
           | Inr rows \<Rightarrow> Inr (row # rows)))"

text \<open>\<open>payload?.results?.bindings ?? []\<close>\<close>

definition payload_bindings :: "payload option \<Rightarrow> json list" where
  "payload_bindings payload =
     (case payload of
        None \<Rightarrow> []
      | Some p \<Rightarrow>
          (case payload_results p of
             None \<Rightarrow> []
           | Some r \<Rightarrow> (case results_bindings r of None \<Rightarrow> [] | Some bs \<Rightarrow> bs)))"

text \<open>
  A \<open>Response\<close>: its status line, what \<open>response.text()\<close> resolves to and what
  \<open>response.json()\<close> settles to (it rejects on a body that is not JSON). \<open>response.ok\<close> is
  true for a status from 200 to 299.
\<close>

record response =
  status :: nat
  statusText :: string
  body_text :: string
  body_json :: "js_error + payload option"

definition response_ok :: "response \<Rightarrow> bool" where
  "response_ok r = (200 \<le> status r \<and> status r \<le> 299)"

text \<open>What \<open>fetchSparql\<close> resolves to: a string or an array of rows.\<close>

datatype fetch_data = Message string | Rows "result_row list"

text \<open>\<open>fetchSparql\<close> from the response on: the part after \<open>await fetch(...)\<close>.\<close>

definition fetchSparql_response :: "response \<Rightarrow> js_error + fetch_data" where
  "fetchSparql_response response =
     (if \<not> response_ok response then
        Inl (JsError ''Error''
              (''Query failed ('' @ string_of_nat (status response) @ '' '' @ statusText response
                @ ''): '' @ (if body_text response = [] then ''No response body.''
                             else body_text response)))
      else
        (case body_json response of
           Inl err \<Rightarrow> Inl err
         | Inr payload \<Rightarrow>
             (let bindings = payload_bindings payload in
              case map_toRow bindings of
                Inl err \<Rightarrow> Inl err
              | Inr rows \<Rightarrow>
                  Inr (if length rows = 0 then Message ''No matches found.'' else Rows rows))))"

text \<open>
  What the network does with a request: it fails (\<open>fetch\<close> rejects with that error) or it
  answers. Once the signal passed to \<open>fetch\<close> is aborted, \<open>fetch\<close> and the reading of the
  body reject with a \<open>DOMException\<close> named \<open>AbortError\<close>, whatever the network does.
\<close>

datatype net_outcome = NetworkError js_error | Response response

definition AbortError :: js_error where
  "AbortError = JsError ''AbortError'' ''The operation was aborted.''"

definition fetchSparql_settled :: "bool \<Rightarrow> net_outcome \<Rightarrow> js_error + fetch_data" where
  "fetchSparql_settled signal_aborted outcome =
     (if signal_aborted then Inl AbortError
      else (case outcome of
              NetworkError err \<Rightarrow> Inl err
            | Response r \<Rightarrow> fetchSparql_response r))"

section \<open>The search controller: \<open>useSearchResults\<close>\<close>

record search_state =
  loading :: bool
  error :: "string option"
  info :: "string option"
  results :: "result_row list"

text \<open>\<open>String(err)\<close> for an \<open>Error\<close> object (\<open>Error.prototype.toString\<close>).\<close>

definition error_toString :: "js_error \<Rightarrow> string" where
  "error_toString err =
     (if err_name err = [] then err_message err
      else if err_message err = [] then err_name err
      else err_name err @ '': '' @ err_message err)"

text \<open>The \<open>.then\<close> handler: the new state does not read the previous one.\<close>

definition on_fulfilled :: "fetch_data \<Rightarrow> search_state" where
  "on_fulfilled data =
     (case data of
        Message text \<Rightarrow> \<lparr>loading = False, error = None, info = Some text, results = []\<rparr>
      | Rows rows \<Rightarrow> \<lparr>loading = False, error = None, info = None, results = rows\<rparr>)"

text \<open>The \<open>.catch\<close> handler: it returns without a state update on an \<open>AbortError\<close>.\<close>

definition on_rejected :: "js_error \<Rightarrow> search_state \<Rightarrow> search_state" where
  "on_rejected err prev =
     (if err_name err = ''AbortError'' then prev
      else \<lparr>loading = False,
            error = Some (if err_message err \<noteq> [] then err_message err else error_toString err),
            info = None, results = []\<rparr>)"

text \<open>The dependencies of the effect, which are the arguments of the hook.\<close>

record deps =
  endpoint :: string
  query :: string
  predicate :: string
  lang :: string

text \<open>
  One instance of the hook. \<open>AbortController\<close>s are numbered in the order the effect
  creates them. \<open>cleanup\<close> is the function the last run of the effect returned: it aborts
  the controller of that number, or there is none. \<open>pending\<close> are the requests whose
  promise has not settled, \<open>aborted\<close> the controllers whose signal is aborted, and
  \<open>calls\<close> the log of the calls of \<open>fetch\<close>: controller, URL and body.
\<close>

record hook =
  state :: search_state
  controllers :: nat
  cleanup :: "nat option"
  aborted :: "nat list"
  pending :: "nat list"
  calls :: "(nat \<times> string \<times> string) list"

definition hook_init :: hook where
  "hook_init =
     \<lparr>state = \<lparr>loading = False, error = None, info = None, results = []\<rparr>,
      controllers = 0, cleanup = None, aborted = [], pending = [], calls = []\<rparr>"

text \<open>React runs the cleanup of the previous run before it runs the effect again.\<close>

definition run_cleanup :: "hook \<Rightarrow> hook" where
  "run_cleanup h =
     (case cleanup h of
        None \<Rightarrow> h
      | Some r \<Rightarrow> h\<lparr>aborted := r # aborted h, cleanup := None\<rparr>)"

text \<open>
  The body of the effect. When \<open>buildQuery\<close> throws, \<open>fetchSparql\<close> returns a promise that
  is rejected already and \<open>fetch\<close> is never called; the \<open>.catch\<close> handler then runs before
  any other event, so the step includes it.
\<close>

definition run_effect :: "deps \<Rightarrow> hook \<Rightarrow> hook" where
  "run_effect d h =
     (let trimmed = js_trim (query d) in
      if length trimmed < 2 then
        h\<lparr>state := (state h)\<lparr>loading := False, error := None, info := None, results := []\<rparr>,
          cleanup := None\<rparr>
      else
        (let controller = controllers h;
             h1 = h\<lparr>state := (state h)\<lparr>loading := True, error := None, info := None\<rparr>,
                    controllers := Suc controller, cleanup := Some controller\<rparr>
         in case buildQuery trimmed (predicate d) (lang d) of
              Inl err \<Rightarrow> h1\<lparr>state := on_rejected err (state h1)\<rparr>
            | Inr sparql \<Rightarrow>
                h1\<lparr>pending := controller # pending h1,
                   calls := calls h1 @ [(controller, endpoint d, sparql)]\<rparr>))"

definition effect :: "deps \<Rightarrow> hook \<Rightarrow> hook" where
  "effect d h = run_effect d (run_cleanup h)"

text \<open>The promise of request \<open>r\<close> settles, the network having done \<open>outcome\<close>.\<close>

definition settle :: "nat \<Rightarrow> net_outcome \<Rightarrow> hook \<Rightarrow> hook" where
  "settle r outcome h =
     (if r \<notin> set (pending h) then h
      else
        (let h1 = h\<lparr>pending := removeAll r (pending h)\<rparr> in
         case fetchSparql_settled (r \<in> set (aborted h)) outcome of
           Inr data \<Rightarrow> h1\<lparr>state := on_fulfilled data\<rparr>
         | Inl err \<Rightarrow> h1\<lparr>state := on_rejected err (state h1)\<rparr>))"

datatype hook_event = Effect deps | Settle nat net_outcome

fun hook_step :: "hook \<Rightarrow> hook_event \<Rightarrow> hook" where
  "hook_step h (Effect d) = effect d h"
| "hook_step h (Settle r outcome) = settle r outcome h"

definition hook_run :: "hook \<Rightarrow> hook_event list \<Rightarrow> hook" where
  "hook_run h evs = foldl hook_step h evs"

section \<open>One search panel: \<open>useDebounce\<close> in front of \<open>useSearchResults\<close>\<close>

text \<open>
  The state of one panel of \<open>App\<close>: the text of the input, the timeout \<open>useDebounce\<close> has
  armed (the milliseconds left and the value its callback holds), the debounced text, the
  other arguments of the hook, and the hook. \<open>App\<close> passes the delay 200.
\<close>

record panel =
  input_text :: string
  timer :: "(nat \<times> string) option"
  debounced :: string
  panel_endpoint :: string
  panel_predicate :: string
  panel_lang :: string
  search :: hook

definition delayMs :: nat where
  "delayMs = 200"

definition panel_deps :: "panel \<Rightarrow> deps" where
  "panel_deps p =
     \<lparr>endpoint = panel_endpoint p, query = debounced p,
      predicate = panel_predicate p, lang = panel_lang p\<rparr>"

text \<open>
  \<open>setDebounced(value)\<close> from the timeout: React skips the render, and with it the effect
  of \<open>useSearchResults\<close>, when the value is the one it holds.
\<close>

definition setDebounced :: "string \<Rightarrow> panel \<Rightarrow> panel" where
  "setDebounced v p =
     (if v = debounced p then p
      else (let p1 = p\<lparr>debounced := v\<rparr> in p1\<lparr>search := effect (panel_deps p1) (search p1)\<rparr>))"

text \<open>
  The events of a panel. \<open>Type v\<close>: the input changes to \<open>v\<close>; the effect of \<open>useDebounce\<close>
  clears the timeout it had armed and arms one for \<open>v\<close> (no render when \<open>v\<close> is the text
  already there). \<open>Elapse ms\<close>: time passes; a timeout due in that time fires.
  \<open>Arrive r outcome\<close>: the promise of request \<open>r\<close> settles. \<open>SelectLang\<close> and
  \<open>EditEndpoint\<close>: the other arguments of the hook change, and its effect runs at once.
\<close>

datatype panel_event =
    Type string
  | Elapse nat
  | Arrive nat net_outcome
  | SelectLang string
  | EditEndpoint string

fun panel_step :: "panel \<Rightarrow> panel_event \<Rightarrow> panel" where
  "panel_step p (Type v) =
     (if v = input_text p then p else p\<lparr>input_text := v, timer := Some (delayMs, v)\<rparr>)"
| "panel_step p (Elapse ms) =
     (case timer p of
        None \<Rightarrow> p
      | Some (left, v) \<Rightarrow>
          if ms < left then p\<lparr>timer := Some (left - ms, v)\<rparr>
          else setDebounced v (p\<lparr>timer := None\<rparr>))"
| "panel_step p (Arrive r outcome) = p\<lparr>search := settle r outcome (search p)\<rparr>"
| "panel_step p (SelectLang l) =
     (if l = panel_lang p then p
      else (let p1 = p\<lparr>panel_lang := l\<rparr> in p1\<lparr>search := effect (panel_deps p1) (search p1)\<rparr>))"
| "panel_step p (EditEndpoint u) =
     (if u = panel_endpoint p then p
      else (let p1 = p\<lparr>panel_endpoint := u\<rparr> in p1\<lparr>search := effect (panel_deps p1) (search p1)\<rparr>))"

definition panel_run :: "panel \<Rightarrow> panel_event list \<Rightarrow> panel" where
  "panel_run p evs = foldl panel_step p evs"

text \<open>
  A panel once mounted: the input is empty, \<open>useDebounce\<close> has armed its first timeout
  and the effect of \<open>useSearchResults\<close> has run once, on the empty text.
\<close>

definition panel_mounted :: "string \<Rightarrow> string \<Rightarrow> string \<Rightarrow> panel" where
  "panel_mounted url pred l =
     (let p = \<lparr>input_text = [], timer = Some (delayMs, []), debounced = [],
               panel_endpoint = url, panel_predicate = pred, panel_lang = l,
               search = hook_init\<rparr>
      in p\<lparr>search := effect (panel_deps p) (search p)\<rparr>)"

text \<open>
  A burst of typing: a first change of the input, then further changes, each some
  milliseconds after the one before.
\<close>

fun burst :: "string \<Rightarrow> (nat \<times> string) list \<Rightarrow> panel_event list" where
  "burst v [] = [Type v]"
| "burst v ((gap, w) # rest) = Type v # Elapse gap # burst w rest"

text \<open>The burst is rapid, and each of its steps a change of the text.\<close>

fun rapid :: "string \<Rightarrow> string \<Rightarrow> (nat \<times> string) list \<Rightarrow> bool" where
  "rapid before v [] = (v \<noteq> before)"
| "rapid before v ((gap, w) # rest) = (v \<noteq> before \<and> gap < delayMs \<and> rapid v w rest)"

fun last_typed :: "string \<Rightarrow> (nat \<times> string) list \<Rightarrow> string" where
  "last_typed v [] = v"
| "last_typed v ((gap, w) # rest) = last_typed w rest"

text \<open>The substring after the last slash, as the specification words the row's id.\<close>

definition after_last_slash :: "string \<Rightarrow> string" where
  "after_last_slash uri = rev (takeWhile (\<lambda>c. c \<noteq> CHR ''/'') (rev uri))"

text \<open>
  The arguments \<open>App\<close> passes for the drug panel before any setting is changed: the
  default endpoint, \<open>PREDICATES.drug\<close> and the language \<open>en\<close>.
\<close>

definition drug_deps :: "string \<Rightarrow> deps" where
  "drug_deps q =
     \<lparr>endpoint = ''/graphdb/repositories/dakikg'', query = q,
      predicate = ''rdfs:label'', lang = ''en''\<rparr>"

text \<open>A 2xx response with one binding row, for the examples.\<close>

definition one_row :: json where
  "one_row =
     JObject [(''e'', JObject [(''type'', JString ''uri''),
                               (''value'', JString ''http://example.org/drug/12345'')]),
              (''shortLabel'', JObject [(''type'', JString ''literal''),
                                        (''value'', JString ''Ibuprofen'')])]"

definition one_row_response :: response where
  "one_row_response =
     \<lparr>status = 200, statusText = ''OK'', body_text = [],
      body_json = Inr (Some (Payload (Some (SparqlResults (Some [one_row])))))\<rparr>"

text \<open>
  What holds of the bookkeeping of the hook in every state it reaches: a pending request
  that is not the one of the last run of the effect has an aborted signal; an aborted
  controller was created earlier and is not the one of the last run; the controller of
  the last run is the newest one.
\<close>

definition hook_inv :: "hook \<Rightarrow> bool" where
  "hook_inv h =
     ((\<forall>r \<in> set (pending h). cleanup h = Some r \<or> r \<in> set (aborted h)) \<and>
      (\<forall>r \<in> set (aborted h). r < controllers h \<and> cleanup h \<noteq> Some r) \<and>
      (\<forall>r. cleanup h = Some r \<longrightarrow> Suc r = controllers h))"

text \<open>What holds of the rendered state in every state the hook reaches.\<close>

definition state_inv :: "search_state \<Rightarrow> bool" where
  "state_inv st =
     ((loading st \<longrightarrow> error st = None \<and> info st = None) \<and>
      (error st \<noteq> None \<longrightarrow> \<not> loading st \<and> info st = None \<and> results st = []) \<and>
      (info st \<noteq> None \<longrightarrow> \<not> loading st \<and> error st = None \<and> results st = []))"

section \<open>Escaping\<close>

lemma getSubstitution_no_dollar:
  "CHR ''$'' \<notin> set r \<Longrightarrow> getSubstitution m s p r = r"
  by (induction m s p r rule: getSubstitution.induct) auto

lemma escape_per_character:
  "escapeSparqlStringLiteral s =
     concat (map (\<lambda>c. if c = backslash then [backslash, backslash]
                        else if c = dquote then [backslash, dquote] else [c]) s)"
  by (induction s) (auto simp: escapeSparqlStringLiteral_def js_replaceAllChar_def)

lemma unescape_one:
  "unescapeQuotedLiteral
     ((if c = backslash then [backslash, backslash]
       else if c = dquote then [backslash, dquote] else [c]) @ r) =
   map_option ((#) c) (unescapeQuotedLiteral r)"
  by (cases r) auto

text \<open>
  C4. For every text, the output of the escaping function (backslashes first, then
  double quotes), read back as the contents of a quoted string literal (a backslash and
  a double quote to a double quote, two backslashes to one), is the text itself: the
  reading succeeds and returns the original.
\<close>

theorem escape_roundtrip:
  "unescapeQuotedLiteral (escapeSparqlStringLiteral rawQueryText) = Some rawQueryText"
  unfolding escape_per_character
  by (induction rawQueryText) (simp, simp add: unescape_one del: unescapeQuotedLiteral.simps)

theorem escape_roundtrip_witness:
  "escapeSparqlStringLiteral [CHR ''a'', backslash, dquote, CHR ''b''] =
     [CHR ''a'', backslash, backslash, backslash, dquote, CHR ''b'']
   \<and> unescapeQuotedLiteral [CHR ''a'', backslash, backslash, backslash, dquote, CHR ''b''] =
     Some [CHR ''a'', backslash, dquote, CHR ''b'']"
  using escape_roundtrip[of "[CHR ''a'', backslash, dquote, CHR ''b'']"]
  by (simp add: escapeSparqlStringLiteral_def js_replaceAllChar_def)

section \<open>Validation\<close>

lemma buildQuery_valid:
  assumes "js_toLowerCase (js_trim l) \<in> set LANG_OPTIONS" and "p \<in> set (map snd PREDICATES)"
  shows "buildQuery q p l =
     Inr (js_replace ''qLang'' (js_toLowerCase (js_trim l))
           (js_replace ''qPred'' p
             (js_replace ''q0'' (escapeSparqlStringLiteral q) SPARQL_TEMPLATE)))"
  using assms by (simp add: buildQuery_def Let_def)

lemma normalized_en: "js_toLowerCase (js_trim ''en'') = ''en''"
  by (simp add: js_toLowerCase_def js_trim_def isWhiteSpace_def lowerChar_def)

lemma buildQuery_drug:
  "buildQuery q ''rdfs:label'' ''en'' =
     Inr (js_replace ''qLang'' ''en'' (js_replace ''qPred'' ''rdfs:label''
           (js_replace ''q0'' (escapeSparqlStringLiteral q) SPARQL_TEMPLATE)))"
  by (simp add: buildQuery_valid normalized_en LANG_OPTIONS_def PREDICATES_def)

text \<open>
  C5. \<open>buildQuery\<close> fails exactly when the language code, trimmed and lower-cased, is
  not \<open>en\<close> or \<open>nl\<close>, or the predicate is not \<open>rdfs:label\<close> or \<open>skos:prefLabel\<close>. When the
  language is rejected the message holds the language as it was passed and names the
  allowed set; when the language is accepted and the predicate rejected (the language is
  checked first) the message holds the predicate. On valid arguments it returns a query.
\<close>

theorem buildQuery_fails_iff:
  "(isl (buildQuery q p l) \<longleftrightarrow>
      js_toLowerCase (js_trim l) \<notin> {''en'', ''nl''} \<or> p \<notin> {''rdfs:label'', ''skos:prefLabel''})
   \<and> (js_toLowerCase (js_trim l) \<notin> {''en'', ''nl''} \<longrightarrow>
        buildQuery q p l =
          Inl (JsError ''Error'' (''Unsupported language: '' @ l @ ''. Expected en or nl.'')))
   \<and> (js_toLowerCase (js_trim l) \<in> {''en'', ''nl''} \<and> p \<notin> {''rdfs:label'', ''skos:prefLabel''} \<longrightarrow>
        buildQuery q p l = Inl (JsError ''Error'' (''Unsupported predicate: '' @ p @ ''.'')))
   \<and> (js_toLowerCase (js_trim l) \<in> {''en'', ''nl''} \<and> p \<in> {''rdfs:label'', ''skos:prefLabel''} \<longrightarrow>
        (\<exists>sparql. buildQuery q p l = Inr sparql))"
  by (auto simp: buildQuery_def Let_def LANG_OPTIONS_def PREDICATES_def)

lemma normalized_fr: "js_toLowerCase (js_trim '' FR '') = ''fr''"
  by code_simp

theorem buildQuery_fails_iff_witness:
  "buildQuery ''ibuprofen'' ''rdfs:label'' '' FR '' =
     Inl (JsError ''Error'' ''Unsupported language:  FR . Expected en or nl.'')
   \<and> buildQuery ''ibuprofen'' ''rdf:label'' ''en'' =
     Inl (JsError ''Error'' ''Unsupported predicate: rdf:label.'')
   \<and> \<not> isl (buildQuery ''ibuprofen'' ''rdfs:label'' ''en'')"
  using buildQuery_fails_iff[of "''ibuprofen''" "''rdfs:label''" "'' FR ''"]
    buildQuery_fails_iff[of "''ibuprofen''" "''rdf:label''" "''en''"]
    buildQuery_fails_iff[of "''ibuprofen''" "''rdfs:label''" "''en''"]
  by (simp add: normalized_fr normalized_en)

section \<open>The slots of the template\<close>

lemma template_split: "SPARQL_TEMPLATE = template_head @ dquote # ''q0'' @ dquote # template_tail"
  by (simp add: SPARQL_TEMPLATE_def template_head_def template_tail_def)

lemma indexOf_None_iff: "indexOf pat s = None \<longleftrightarrow> \<not> sublist pat s"
  by (induction s) (auto simp: sublist_Cons_right)

lemma prefix_stops_at: "c \<notin> set pat \<Longrightarrow> prefix pat (X @ c # Y) \<Longrightarrow> prefix pat X"
  by (auto simp: prefix_append prefix_Cons)

lemma indexOf_skip:
  assumes "c \<notin> set pat" and "pat \<noteq> []" and "indexOf pat X = None"
  shows "indexOf pat (X @ c # Y) = map_option (\<lambda>i. Suc (length X) + i) (indexOf pat Y)"
  using assms(3)
proof (induction X)
  case Nil
  have "\<not> prefix pat (c # Y)" using assms(1,2) by (cases pat) auto
  then show ?case by (simp add: option.map_comp comp_def)
next
  case (Cons x X)
  from Cons.prems have np: "\<not> prefix pat (x # X)" and n: "indexOf pat X = None"
    by (auto split: if_splits)
  have "\<not> prefix pat ((x # X) @ c # Y)"
    using np prefix_stops_at[OF assms(1)] by blast
  with Cons.IH[OF n] show ?case by (simp add: option.map_comp comp_def)
qed

lemma js_replace_plain:
  "CHR ''$'' \<notin> set rep \<Longrightarrow>
   js_replace pat rep s =
     (case indexOf pat s of None \<Rightarrow> s | Some i \<Rightarrow> take i s @ rep @ drop (i + length pat) s)"
  by (simp add: js_replace_def getSubstitution_no_dollar split: option.splits)

lemma js_replace_skip:
  assumes "CHR ''$'' \<notin> set rep" and "c \<notin> set pat" and "pat \<noteq> []"
    and "indexOf pat X = None"
  shows "js_replace pat rep (X @ c # Y) = X @ c # js_replace pat rep Y"
  by (cases "indexOf pat Y")
     (simp_all add: js_replace_plain[OF assms(1)] indexOf_skip[OF assms(2-4)])

lemma escape_Cons:
  "escapeSparqlStringLiteral (c # cs) =
     (if c = backslash then [backslash, backslash]
      else if c = dquote then [backslash, dquote] else [c]) @ escapeSparqlStringLiteral cs"
  by (simp add: escape_per_character)

lemma escape_Nil: "escapeSparqlStringLiteral [] = []"
  by (simp add: escape_per_character)

lemma escape_no_dollar: "CHR ''$'' \<notin> set q \<Longrightarrow> CHR ''$'' \<notin> set (escapeSparqlStringLiteral q)"
  by (induction q) (auto simp: escape_Cons escape_Nil)

lemma prefix_escape:
  "backslash \<notin> set pat \<Longrightarrow> dquote \<notin> set pat \<Longrightarrow>
   prefix pat (escapeSparqlStringLiteral s) \<Longrightarrow> prefix pat s"
proof (induction s arbitrary: pat)
  case Nil
  then show ?case by (simp add: escape_Nil)
next
  case (Cons c cs)
  show ?case
  proof (cases pat)
    case Nil
    then show ?thesis by simp
  next
    case (Cons a as)
    with Cons.prems Cons.IH[of as] show ?thesis
      by (auto simp: escape_Cons split: if_splits)
  qed
qed

lemma indexOf_escape:
  assumes "backslash \<notin> set pat" and "dquote \<notin> set pat" and "pat \<noteq> []"
  shows "indexOf pat s = None \<Longrightarrow> indexOf pat (escapeSparqlStringLiteral s) = None"
proof (induction s)
  case Nil
  then show ?case using assms(3) by (simp add: escape_Nil)
next
  case (Cons c cs)
  from Cons.prems have np: "\<not> prefix pat (c # cs)" and n: "indexOf pat cs = None"
    by (auto split: if_splits)
  have ih: "indexOf pat (escapeSparqlStringLiteral cs) = None" using Cons.IH[OF n] .
  obtain a as where pat: "pat = a # as" using assms(3) by (cases pat) auto
  have a: "a \<noteq> backslash" "a \<noteq> dquote" using assms(1,2) pat by auto
  show ?case
  proof (cases "c = backslash \<or> c = dquote")
    case True
    then show ?thesis using ih a by (auto simp: escape_Cons pat)
  next
    case False
    have "\<not> prefix pat (escapeSparqlStringLiteral (c # cs))"
      using np prefix_escape[OF assms(1,2)] by blast
    then show ?thesis using False ih by (simp add: escape_Cons)
  qed
qed

lemma template_tail_split:
  "template_tail = tail_before_predicate @ ''qPred'' @ tail_before_language
      @ dquote # ''qLang'' @ dquote # tail_end"
  by (simp add: template_tail_def tail_before_predicate_def tail_before_language_def tail_end_def)

lemma filled_split:
  "spec_filled_template a b c =
     template_head @ dquote # a @ dquote # tail_before_predicate @ b @ tail_before_language
       @ dquote # c @ dquote # tail_end"
  by (simp add: spec_filled_template_def template_head_def tail_before_predicate_def
        tail_before_language_def tail_end_def)

lemma head_free:
  "indexOf ''q0'' template_head = None"
  "indexOf ''qPred'' template_head = None"
  "indexOf ''qLang'' template_head = None"
  by code_simp+

lemma indexOf_at_start: "indexOf pat (pat @ rest) = Some 0"
proof (cases "pat @ rest")
  case Nil
  then show ?thesis by simp
next
  case (Cons a list)
  have "prefix pat (pat @ rest)" by simp
  then show ?thesis unfolding Cons by simp
qed

lemma replace_at_start:
  "CHR ''$'' \<notin> set rep \<Longrightarrow> js_replace pat rep (pat @ rest) = rep @ rest"
  by (simp add: js_replace_plain indexOf_at_start)

lemma fill_search:
  assumes "CHR ''$'' \<notin> set text"
  shows "js_replace ''q0'' text SPARQL_TEMPLATE = template_head @ dquote # text @ dquote # template_tail"
proof -
  have "js_replace ''q0'' text (template_head @ dquote # (''q0'' @ dquote # template_tail)) =
        template_head @ dquote # js_replace ''q0'' text (''q0'' @ dquote # template_tail)"
    by (rule js_replace_skip[OF assms]) (simp_all add: head_free)
  also have "js_replace ''q0'' text (''q0'' @ dquote # template_tail) = text @ dquote # template_tail"
    by (rule replace_at_start[OF assms])
  finally show ?thesis by (simp add: template_split)
qed

lemma fill_predicate:
  assumes "CHR ''$'' \<notin> set p" and "indexOf ''qPred'' text = None"
  shows "js_replace ''qPred'' p (template_head @ dquote # text @ dquote # template_tail) =
     template_head @ dquote # text @ dquote # tail_before_predicate @ p @ tail_before_language
       @ dquote # ''qLang'' @ dquote # tail_end"
proof -
  have b: "indexOf ''qPred'' tail_before_predicate = None"
    by (simp add: tail_before_predicate_def)
  have "js_replace ''qPred'' p (template_head @ dquote # text @ dquote # template_tail) =
        template_head @ dquote # js_replace ''qPred'' p (text @ dquote # template_tail)"
    by (rule js_replace_skip[OF assms(1)]) (simp_all add: head_free)
  also have "js_replace ''qPred'' p (text @ dquote # template_tail) =
        text @ dquote # js_replace ''qPred'' p template_tail"
    by (rule js_replace_skip[OF assms(1)]) (simp_all add: assms(2))
  also have "js_replace ''qPred'' p template_tail =
        tail_before_predicate @ p @ tail_before_language @ dquote # ''qLang'' @ dquote # tail_end"
    using assms(1)
    by (simp add: template_tail_split js_replace_plain tail_before_predicate_def)
  finally show ?thesis by simp
qed

lemma fill_language:
  assumes "CHR ''$'' \<notin> set code" and "indexOf ''qLang'' text = None"
    and "p = ''rdfs:label'' \<or> p = ''skos:prefLabel''"
  shows "js_replace ''qLang'' code
       (template_head @ dquote # text @ dquote # tail_before_predicate @ p @ tail_before_language
          @ dquote # ''qLang'' @ dquote # tail_end) =
     template_head @ dquote # text @ dquote # tail_before_predicate @ p @ tail_before_language
       @ dquote # code @ dquote # tail_end"
proof -
  have m: "indexOf ''qLang'' (tail_before_predicate @ p @ tail_before_language) = None"
    using assms(3) by (auto simp: tail_before_predicate_def tail_before_language_def)
  have "js_replace ''qLang'' code
       (template_head @ dquote # text @ dquote # tail_before_predicate @ p @ tail_before_language
          @ dquote # ''qLang'' @ dquote # tail_end) =
        template_head @ dquote # js_replace ''qLang'' code
          (text @ dquote # tail_before_predicate @ p @ tail_before_language
            @ dquote # ''qLang'' @ dquote # tail_end)"
    by (rule js_replace_skip[OF assms(1)]) (simp_all add: head_free)
  also have "js_replace ''qLang'' code
          (text @ dquote # tail_before_predicate @ p @ tail_before_language
            @ dquote # ''qLang'' @ dquote # tail_end) =
        text @ dquote # js_replace ''qLang'' code
          (tail_before_predicate @ p @ tail_before_language @ dquote # ''qLang'' @ dquote # tail_end)"
    by (rule js_replace_skip[OF assms(1)]) (simp_all add: assms(2))
  also have "js_replace ''qLang'' code
          (tail_before_predicate @ p @ tail_before_language @ dquote # ''qLang'' @ dquote # tail_end) =
        (tail_before_predicate @ p @ tail_before_language) @ dquote #
          js_replace ''qLang'' code (''qLang'' @ dquote # tail_end)"
    using js_replace_skip[OF assms(1) _ _ m, of dquote "''qLang'' @ dquote # tail_end"] by simp
  also have "js_replace ''qLang'' code (''qLang'' @ dquote # tail_end) = code @ dquote # tail_end"
    by (rule replace_at_start[OF assms(1)])
  finally show ?thesis by simp
qed

text \<open>
  Where the slots are filled as the specification says: the search text holds no dollar
  sign and neither of the placeholders \<open>qPred\<close> and \<open>qLang\<close>.
\<close>

lemma buildQuery_fills_slots:
  assumes "CHR ''$'' \<notin> set q" and "\<not> sublist ''qPred'' q" and "\<not> sublist ''qLang'' q"
    and "js_toLowerCase (js_trim l) \<in> set LANG_OPTIONS" and "p \<in> set (map snd PREDICATES)"
  shows "buildQuery q p l =
     Inr (spec_filled_template (escapeSparqlStringLiteral q) p (js_toLowerCase (js_trim l)))"
proof -
  let ?text = "escapeSparqlStringLiteral q"
  let ?code = "js_toLowerCase (js_trim l)"
  have t: "CHR ''$'' \<notin> set ?text" using assms(1) by (rule escape_no_dollar)
  have p: "p = ''rdfs:label'' \<or> p = ''skos:prefLabel''"
    using assms(5) by (auto simp: PREDICATES_def)
  then have pd: "CHR ''$'' \<notin> set p" by auto
  have cd: "CHR ''$'' \<notin> set ?code" using assms(4) by (auto simp: LANG_OPTIONS_def)
  have n1: "indexOf ''qPred'' ?text = None"
    using assms(2) by (intro indexOf_escape) (simp_all add: indexOf_None_iff)
  have n2: "indexOf ''qLang'' ?text = None"
    using assms(3) by (intro indexOf_escape) (simp_all add: indexOf_None_iff)
  show ?thesis
    by (simp only: buildQuery_valid[OF assms(4,5)] fill_search[OF t] fill_predicate[OF pd n1]
          fill_language[OF cd n2 p] filled_split)
qed

lemma example_query:
  "buildQuery ''ibuprofen'' ''rdfs:label'' ''en'' =
     Inr (spec_filled_template ''ibuprofen'' ''rdfs:label'' ''en'')"
proof -
  have "\<not> sublist ''qPred'' ''ibuprofen''" and "\<not> sublist ''qLang'' ''ibuprofen''"
    by code_simp+
  then show ?thesis
    using buildQuery_fills_slots[of "''ibuprofen''" "''en''" "''rdfs:label''"]
    by (simp add: normalized_en LANG_OPTIONS_def PREDICATES_def
          escapeSparqlStringLiteral_def js_replaceAllChar_def)
qed

text \<open>
  C2 says that \<open>buildQuery\<close> returns the template with the escaped search text, the
  predicate and the language code in their slots, whatever the search text is. The code
  fills the slots by three calls of \<open>replace\<close> in a row, each on the result of the one
  before, so the second and the third also look into the search text already filled in.
  For the search text \<open>qLang\<close> the language code lands in the search slot and the
  language slot keeps its placeholder.
\<close>

theorem placeholder_text_breaks_slots:
  "buildQuery ''qLang'' ''rdfs:label'' ''en'' =
     Inr (spec_filled_template ''en'' ''rdfs:label'' ''qLang'')
   \<and> escapeSparqlStringLiteral ''qLang'' = ''qLang''
   \<and> buildQuery ''qLang'' ''rdfs:label'' ''en'' \<noteq>
     Inr (spec_filled_template (escapeSparqlStringLiteral ''qLang'') ''rdfs:label'' ''en'')"
  by code_simp

text \<open>
  \<open>replace\<close> also reads dollar patterns in the replacement text, which here is the search
  text: \<open>$&\<close> becomes the placeholder \<open>q0\<close>, and \<open>$'\<close> becomes the rest of the template,
  which starts with the closing quote of the literal.
\<close>

lemma dollar_pattern_breaks_search_slot:
  "buildQuery ''a$&b'' ''rdfs:label'' ''en'' =
     Inr (spec_filled_template ''aq0b'' ''rdfs:label'' ''en'')
   \<and> escapeSparqlStringLiteral ''a$&b'' = ''a$&b''"
  by code_simp

lemma dollar_quote_copies_template_tail:
  "buildQuery [CHR ''$'', squote] ''rdfs:label'' ''en'' =
     Inr (spec_filled_template
       (''\" .'' @ [newline] @ ''  ?e rdfs:label ?label .'' @ [newline] @
        ''  FILTER(lang(?label) = \"en\")'' @ [newline] @ ''} LIMIT 10'')
       ''qPred'' ''qLang'')"
  by code_simp

section \<open>Rows\<close>

lemma js_split_not_empty: "js_split c s \<noteq> []"
  by (induction s) (auto split: list.splits)

lemma js_split_no_separator: "c \<notin> set s \<Longrightarrow> js_split c s = [s]"
  by (induction s) auto

lemma js_split_at_separator:
  "js_split c (pre @ c # rest) = js_split c pre @ js_split c rest"
proof (induction pre)
  case Nil
  show ?case by simp
next
  case (Cons a pre)
  obtain seg segs where s: "js_split c pre = seg # segs"
    using js_split_not_empty[of c pre] by (cases "js_split c pre") auto
  with Cons show ?case by simp
qed

lemma last_js_split: "last (js_split c s) = rev (takeWhile (\<lambda>x. x \<noteq> c) (rev s))"
proof (cases "c \<in> set s")
  case False
  then have tw: "takeWhile (\<lambda>x. x \<noteq> c) (rev s) = rev s" by auto
  from False have sp: "js_split c s = [s]" by (rule js_split_no_separator)
  show ?thesis unfolding sp tw by simp
next
  case True
  then obtain pre seg where s: "s = pre @ c # seg" and n: "c \<notin> set seg"
    using split_list_last by fastforce
  have "last (js_split c s) = seg"
    using n by (simp add: s js_split_at_separator js_split_not_empty js_split_no_separator)
  moreover have "takeWhile (\<lambda>x. x \<noteq> c) (rev s) = rev seg"
    using n by (auto simp: s takeWhile_tail)
  ultimately show ?thesis by simp
qed

lemma pop_split: "js_pop (js_split CHR ''/'' uri) = Some (after_last_slash uri)"
  by (simp add: js_pop_def js_split_not_empty last_js_split after_last_slash_def)

lemma after_last_slash_none:
  assumes "CHR ''/'' \<notin> set uri"
  shows "after_last_slash uri = uri"
proof -
  from assms have tw: "takeWhile (\<lambda>c. c \<noteq> CHR ''/'') (rev uri) = rev uri" by auto
  show ?thesis unfolding after_last_slash_def tw by simp
qed

lemma after_last_slash_segment:
  assumes "CHR ''/'' \<notin> set seg"
  shows "after_last_slash (pre @ CHR ''/'' # seg) = seg"
proof -
  have "after_last_slash (pre @ CHR ''/'' # seg) = after_last_slash seg"
    by (simp add: after_last_slash_def takeWhile_tail)
  with after_last_slash_none[OF assms] show ?thesis by simp
qed

lemma toRow_string:
  assumes "value_or_empty result ''e'' = JString uri"
  shows "toRow result =
     Inr \<lparr>row_id = (if after_last_slash uri = [] then uri else after_last_slash uri),
          row_label = value_or_empty result ''shortLabel''\<rparr>"
  using assms by (simp add: toRow_def Let_def pop_split)

lemma toRow_fails_iff:
  "isl (toRow result) \<longleftrightarrow> (\<forall>uri. value_or_empty result ''e'' \<noteq> JString uri)"
  by (cases "value_or_empty result ''e''") (simp_all add: toRow_def Let_def)

text \<open>
  C10, amended. For every binding row whose entity value is missing, \<open>null\<close> or a
  string, the mapping to a result row succeeds. A missing or \<open>null\<close> entity value or
  \<open>shortLabel\<close> value (the row \<open>null\<close>, the variable missing, or its \<open>value\<close> missing or
  \<open>null\<close>) counts as the empty string. The id is the text after the last slash of the
  entity URI; when that text is empty (the URI ends with a slash, or is empty) the id is
  the whole URI; a URI without a slash is its own id.
\<close>

theorem row_of_binding:
  "(value_or_empty result ''e'' = JString uri \<longrightarrow>
      toRow result =
        Inr \<lparr>row_id = (if after_last_slash uri = [] then uri else after_last_slash uri),
             row_label = value_or_empty result ''shortLabel''\<rparr>)
   \<and> (js_opt_get (js_opt_get (Some result) x) ''value'' = None \<or>
       js_opt_get (js_opt_get (Some result) x) ''value'' = Some JNull \<longrightarrow>
      value_or_empty result x = JString [])
   \<and> (js_opt_get (js_opt_get (Some result) ''e'') ''value'' = None \<or>
       js_opt_get (js_opt_get (Some result) ''e'') ''value'' = Some JNull \<longrightarrow>
      toRow result = Inr \<lparr>row_id = [], row_label = value_or_empty result ''shortLabel''\<rparr>)
   \<and> (value_or_empty result ''e'' = JString (pre @ CHR ''/'' # seg) \<and>
       CHR ''/'' \<notin> set seg \<and> seg \<noteq> [] \<longrightarrow>
      toRow result = Inr \<lparr>row_id = seg, row_label = value_or_empty result ''shortLabel''\<rparr>)
   \<and> (value_or_empty result ''e'' = JString (pre @ ''/'') \<longrightarrow>
      toRow result =
        Inr \<lparr>row_id = pre @ ''/'', row_label = value_or_empty result ''shortLabel''\<rparr>)
   \<and> (value_or_empty result ''e'' = JString uri \<and> CHR ''/'' \<notin> set uri \<longrightarrow>
      toRow result = Inr \<lparr>row_id = uri, row_label = value_or_empty result ''shortLabel''\<rparr>)"
proof -
  have a: "toRow result =
        Inr \<lparr>row_id = (if after_last_slash uri = [] then uri else after_last_slash uri),
             row_label = value_or_empty result ''shortLabel''\<rparr>"
    if "value_or_empty result ''e'' = JString uri"
    using that by (rule toRow_string)
  have b: "value_or_empty result x = JString []"
    if "js_opt_get (js_opt_get (Some result) x) ''value'' = None \<or>
        js_opt_get (js_opt_get (Some result) x) ''value'' = Some JNull"
    using that by (auto simp: value_or_empty_def nullish_or_def)
  have c: "toRow result = Inr \<lparr>row_id = [], row_label = value_or_empty result ''shortLabel''\<rparr>"
    if "js_opt_get (js_opt_get (Some result) ''e'') ''value'' = None \<or>
        js_opt_get (js_opt_get (Some result) ''e'') ''value'' = Some JNull"
  proof -
    from that have "value_or_empty result ''e'' = JString []"
      by (auto simp: value_or_empty_def nullish_or_def)
    from toRow_string[OF this] show ?thesis by (simp add: after_last_slash_def)
  qed
  have d: "toRow result = Inr \<lparr>row_id = seg, row_label = value_or_empty result ''shortLabel''\<rparr>"
    if "value_or_empty result ''e'' = JString (pre @ CHR ''/'' # seg)"
      and "CHR ''/'' \<notin> set seg" and "seg \<noteq> []"
    using toRow_string[OF that(1)] that(2,3) by (simp add: after_last_slash_segment)
  have e: "toRow result =
        Inr \<lparr>row_id = pre @ ''/'', row_label = value_or_empty result ''shortLabel''\<rparr>"
    if "value_or_empty result ''e'' = JString (pre @ ''/'')"
    using toRow_string[OF that] after_last_slash_segment[of "[]" pre] by simp
  have f: "toRow result = Inr \<lparr>row_id = uri, row_label = value_or_empty result ''shortLabel''\<rparr>"
    if "value_or_empty result ''e'' = JString uri" and "CHR ''/'' \<notin> set uri"
    using toRow_string[OF that(1)] that(2) by (simp add: after_last_slash_none)
  from a b c d e f show ?thesis by blast
qed

lemma value_of_one_row:
  "value_or_empty one_row ''e'' = JString (''http://example.org/drug'' @ CHR ''/'' # ''12345'')"
  "value_or_empty one_row ''shortLabel'' = JString ''Ibuprofen''"
  by (simp_all add: value_or_empty_def nullish_or_def one_row_def)

theorem row_of_binding_witness:
  "toRow one_row = Inr \<lparr>row_id = ''12345'', row_label = JString ''Ibuprofen''\<rparr>
   \<and> toRow (JObject [(''e'', JObject [(''value'', JString ''http://example.org/drug/'')])]) =
       Inr \<lparr>row_id = ''http://example.org/drug/'', row_label = JString []\<rparr>
   \<and> toRow (JObject [(''shortLabel'', JObject [(''value'', JNull)])]) =
       Inr \<lparr>row_id = [], row_label = JString []\<rparr>
   \<and> toRow JNull = Inr \<lparr>row_id = [], row_label = JString []\<rparr>"
proof -
  have r1: "toRow one_row = Inr \<lparr>row_id = ''12345'', row_label = JString ''Ibuprofen''\<rparr>"
    using row_of_binding[of one_row _ _ "''http://example.org/drug''" "''12345''",
        THEN conjunct2, THEN conjunct2, THEN conjunct2, THEN conjunct1]
    by (simp add: value_of_one_row)
  have r2: "toRow (JObject [(''e'', JObject [(''value'', JString ''http://example.org/drug/'')])]) =
       Inr \<lparr>row_id = ''http://example.org/drug/'', row_label = JString []\<rparr>"
    using row_of_binding[of "JObject [(''e'', JObject [(''value'', JString ''http://example.org/drug/'')])]"
        _ _ "''http://example.org/drug''",
        THEN conjunct2, THEN conjunct2, THEN conjunct2, THEN conjunct2, THEN conjunct1]
    by (simp add: value_or_empty_def nullish_or_def)
  have r3: "toRow (JObject [(''shortLabel'', JObject [(''value'', JNull)])]) =
       Inr \<lparr>row_id = [], row_label = JString []\<rparr>"
    using row_of_binding[of "JObject [(''shortLabel'', JObject [(''value'', JNull)])]",
        THEN conjunct2, THEN conjunct2, THEN conjunct1]
    by (simp add: value_or_empty_def nullish_or_def)
  have r4: "toRow JNull = Inr \<lparr>row_id = [], row_label = JString []\<rparr>"
    using row_of_binding[of JNull, THEN conjunct2, THEN conjunct2, THEN conjunct1]
    by (simp add: value_or_empty_def nullish_or_def)
  from r1 r2 r3 r4 show ?thesis by blast
qed

text \<open>
  C10 as stated fails: \<open>??\<close> replaces only \<open>undefined\<close> and \<open>null\<close>, so a row whose
  entity value is the number 12345 reaches \<open>uri.split\<close> with a number, and the call
  throws.
\<close>

theorem number_value_counterexample:
  "toRow (JObject [(''e'', JObject [(''type'', JString ''uri''), (''value'', JNumber 12345)]),
                   (''shortLabel'', JObject [(''value'', JString ''Ibuprofen'')])]) =
     Inl (JsError ''TypeError'' ''uri.split is not a function'')"
  by (simp add: toRow_def value_or_empty_def nullish_or_def)

text \<open>With such a row among the bindings the whole of \<open>fetchSparql\<close> rejects.\<close>

lemma number_value_rejects_response:
  "fetchSparql_response
     \<lparr>status = 200, statusText = ''OK'', body_text = [],
      body_json = Inr (Some (Payload (Some (SparqlResults (Some
        [one_row, JObject [(''e'', JObject [(''value'', JNumber 12345)])]])))))\<rparr> =
     Inl (JsError ''TypeError'' ''uri.split is not a function'')"
  by (simp add: fetchSparql_response_def response_ok_def payload_bindings_def
        toRow_def value_or_empty_def nullish_or_def one_row_def)

section \<open>Invariants of the controller\<close>

lemma hook_inv_init: "hook_inv hook_init"
  by (simp add: hook_inv_def hook_init_def)

lemma hook_inv_cleanup: "hook_inv h \<Longrightarrow> hook_inv (run_cleanup h) \<and> cleanup (run_cleanup h) = None"
  by (auto simp: hook_inv_def run_cleanup_def split: option.splits)

lemma hook_inv_run_effect: "hook_inv h \<Longrightarrow> cleanup h = None \<Longrightarrow> hook_inv (run_effect d h)"
  by (auto simp: hook_inv_def run_effect_def Let_def less_Suc_eq split: sum.splits)

lemma hook_inv_effect: "hook_inv h \<Longrightarrow> hook_inv (effect d h)"
  by (simp add: effect_def hook_inv_cleanup hook_inv_run_effect)

lemma hook_inv_settle: "hook_inv h \<Longrightarrow> hook_inv (settle r outcome h)"
  by (auto simp: hook_inv_def settle_def Let_def split: sum.splits)

lemma hook_inv_step: "hook_inv h \<Longrightarrow> hook_inv (hook_step h ev)"
  by (cases ev) (simp_all add: hook_inv_effect hook_inv_settle)

lemma hook_inv_run: "hook_inv h \<Longrightarrow> hook_inv (hook_run h evs)"
  unfolding hook_run_def by (induction evs arbitrary: h) (simp_all add: hook_inv_step)

lemma state_inv_on_fulfilled: "state_inv (on_fulfilled data)"
  by (cases data) (simp_all add: state_inv_def on_fulfilled_def)

lemma state_inv_on_rejected:
  assumes "state_inv st"
  shows "state_inv (on_rejected err st)"
proof (cases "err_name err = ''AbortError''")
  case True
  with assms show ?thesis by (simp add: on_rejected_def)
next
  case False
  then show ?thesis by (simp add: on_rejected_def state_inv_def)
qed

lemma state_run_cleanup: "state (run_cleanup h) = state h"
  by (simp add: run_cleanup_def split: option.splits)

lemma state_inv_effect: "state_inv (state (effect d h))"
  by (auto simp: effect_def run_effect_def Let_def state_run_cleanup state_inv_def on_rejected_def split: sum.splits)

lemma state_inv_settle: "state_inv (state h) \<Longrightarrow> state_inv (state (settle r outcome h))"
  by (auto simp: settle_def Let_def state_inv_on_fulfilled state_inv_on_rejected split: sum.splits)

lemma state_inv_step: "state_inv (state h) \<Longrightarrow> state_inv (state (hook_step h ev))"
  by (cases ev) (simp_all add: state_inv_effect state_inv_settle)

lemma state_inv_run: "state_inv (state h) \<Longrightarrow> state_inv (state (hook_run h evs))"
  unfolding hook_run_def by (induction evs arbitrary: h) (simp_all add: state_inv_step)

lemma state_inv_init: "state_inv (state hook_init)"
  by (simp add: state_inv_def hook_init_def)

lemma settle_superseded:
  assumes "hook_inv h" and "cleanup h \<noteq> Some r"
  shows "state (settle r outcome h) = state h"
proof (cases "r \<in> set (pending h)")
  case False
  then show ?thesis by (simp add: settle_def)
next
  case True
  with assms have "r \<in> set (aborted h)" by (auto simp: hook_inv_def)
  with True show ?thesis
    by (simp add: settle_def fetchSparql_settled_def AbortError_def on_rejected_def)
qed

lemma current_not_aborted:
  "hook_inv h \<Longrightarrow> cleanup h = Some r \<Longrightarrow> r \<notin> set (aborted h)"
  by (auto simp: hook_inv_def)

lemma settle_current:
  assumes "hook_inv h" and "cleanup h = Some r" and "r \<in> set (pending h)"
  shows "state (settle r outcome h) =
     (case fetchSparql_settled False outcome of
        Inr data \<Rightarrow> on_fulfilled data
      | Inl err \<Rightarrow> on_rejected err (state h))"
  using assms current_not_aborted[OF assms(1,2)]
  by (simp add: settle_def Let_def split: sum.splits)

lemma controllers_run_cleanup: "controllers (run_cleanup h) = controllers h"
  by (simp add: run_cleanup_def split: option.splits)

lemma cleanup_effect:
  "cleanup (effect d h) = (if length (js_trim (query d)) < 2 then None else Some (controllers h))"
  by (cases "buildQuery (js_trim (query d)) (predicate d) (lang d)")
     (simp_all add: effect_def run_effect_def Let_def controllers_run_cleanup)

lemma controllers_effect:
  "controllers (effect d h) =
     (if length (js_trim (query d)) < 2 then controllers h else Suc (controllers h))"
  by (cases "buildQuery (js_trim (query d)) (predicate d) (lang d)")
     (simp_all add: effect_def run_effect_def Let_def controllers_run_cleanup)

lemma cleanup_settle: "cleanup (settle r outcome h) = cleanup h"
  by (cases "fetchSparql_settled (r \<in> set (aborted h)) outcome")
     (simp_all add: settle_def Let_def)

lemma controllers_settle: "controllers (settle r outcome h) = controllers h"
  by (cases "fetchSparql_settled (r \<in> set (aborted h)) outcome")
     (simp_all add: settle_def Let_def)

lemma later_not_current_step:
  "r < controllers h \<and> cleanup h \<noteq> Some r \<Longrightarrow>
   r < controllers (hook_step h ev) \<and> cleanup (hook_step h ev) \<noteq> Some r"
  by (cases ev) (auto simp: cleanup_effect controllers_effect cleanup_settle controllers_settle)

lemma later_not_current_run:
  "r < controllers h \<and> cleanup h \<noteq> Some r \<Longrightarrow>
   r < controllers (hook_run h evs) \<and> cleanup (hook_run h evs) \<noteq> Some r"
  unfolding hook_run_def
proof (induction evs arbitrary: h)
  case Nil then show ?case by simp
next
  case (Cons ev evs)
  show ?case using Cons.IH[OF later_not_current_step[OF Cons.prems, of ev]] by simp
qed

lemma pending_lt: "hook_inv h \<Longrightarrow> r \<in> set (pending h) \<Longrightarrow> r < controllers h"
  by (auto simp: hook_inv_def)

lemma effect_supersedes:
  "r < controllers h \<Longrightarrow> r < controllers (effect d h) \<and> cleanup (effect d h) \<noteq> Some r"
  by (auto simp: cleanup_effect controllers_effect)

section \<open>Steps of the controller\<close>

lemma calls_run_cleanup: "calls (run_cleanup h) = calls h"
  by (simp add: run_cleanup_def split: option.splits)

lemma pending_run_cleanup: "pending (run_cleanup h) = pending h"
  by (simp add: run_cleanup_def split: option.splits)

lemma calls_effect:
  "calls (effect d h) = calls h @
     (if length (js_trim (query d)) < 2 then []
      else (case buildQuery (js_trim (query d)) (predicate d) (lang d) of
              Inl err \<Rightarrow> []
            | Inr sparql \<Rightarrow> [(controllers h, endpoint d, sparql)]))"
  by (cases "buildQuery (js_trim (query d)) (predicate d) (lang d)")
     (simp_all add: effect_def run_effect_def Let_def calls_run_cleanup controllers_run_cleanup)

lemma pending_effect:
  "pending (effect d h) =
     (if length (js_trim (query d)) < 2 then pending h
      else (case buildQuery (js_trim (query d)) (predicate d) (lang d) of
              Inl err \<Rightarrow> pending h
            | Inr sparql \<Rightarrow> controllers h # pending h))"
  by (cases "buildQuery (js_trim (query d)) (predicate d) (lang d)")
     (simp_all add: effect_def run_effect_def Let_def pending_run_cleanup controllers_run_cleanup)

lemma state_effect:
  "state (effect d h) =
     (if length (js_trim (query d)) < 2 then
        \<lparr>loading = False, error = None, info = None, results = []\<rparr>
      else (case buildQuery (js_trim (query d)) (predicate d) (lang d) of
              Inl err \<Rightarrow> on_rejected err ((state h)\<lparr>loading := True, error := None, info := None\<rparr>)
            | Inr sparql \<Rightarrow> (state h)\<lparr>loading := True, error := None, info := None\<rparr>))"
  by (cases "buildQuery (js_trim (query d)) (predicate d) (lang d)")
     (simp_all add: effect_def run_effect_def Let_def state_run_cleanup)

lemma calls_settle: "calls (settle r outcome h) = calls h"
  by (cases "fetchSparql_settled (r \<in> set (aborted h)) outcome")
     (simp_all add: settle_def Let_def)

lemma hook_inv_reachable: "hook_inv (hook_run hook_init evs)"
  by (simp add: hook_inv_run hook_inv_init)

text \<open>
  C7. When the effect runs on a text whose trimmed length is 0 or 1, \<open>fetch\<close> is not
  called and the state is cleared: not loading, no error, no info message, no result
  rows. Nothing that settles afterwards changes that or adds a call.
\<close>

theorem short_input_is_idle:
  assumes "h = hook_run hook_init evs" and "length (js_trim (query d)) < 2"
  shows "state (effect d h) = \<lparr>loading = False, error = None, info = None, results = []\<rparr>
       \<and> calls (effect d h) = calls h
       \<and> pending (effect d h) = pending h
       \<and> state (settle r outcome (effect d h)) = \<lparr>loading = False, error = None, info = None, results = []\<rparr>
       \<and> calls (settle r outcome (effect d h)) = calls h"
proof -
  have inv: "hook_inv (effect d h)"
    using assms(1) by (simp add: hook_inv_effect hook_inv_reachable)
  have none: "cleanup (effect d h) \<noteq> Some r"
    using assms(2) by (simp add: cleanup_effect)
  have idle: "state (effect d h) = \<lparr>loading = False, error = None, info = None, results = []\<rparr>"
    using assms(2) by (simp add: state_effect)
  have c: "calls (effect d h) = calls h"
    using assms(2) by (simp add: calls_effect)
  have p: "pending (effect d h) = pending h"
    using assms(2) by (simp add: pending_effect)
  from settle_superseded[OF inv none] idle c p show ?thesis
    by (simp add: calls_settle)
qed

lemma trim_i: "js_trim '' i '' = ''i''"
  by (simp add: js_trim_def isWhiteSpace_def)

theorem short_input_is_idle_witness:
  "state (effect (drug_deps '' i'') (hook_run hook_init [Effect (drug_deps ''ib'')])) =
      \<lparr>loading = False, error = None, info = None, results = []\<rparr>
   \<and> calls (effect (drug_deps '' i'') (hook_run hook_init [Effect (drug_deps ''ib'')])) =
      calls (hook_run hook_init [Effect (drug_deps ''ib'')])
   \<and> state (settle 0 (Response one_row_response)
       (effect (drug_deps '' i'') (hook_run hook_init [Effect (drug_deps ''ib'')]))) =
      \<lparr>loading = False, error = None, info = None, results = []\<rparr>"
proof -
  have short: "length (js_trim (query (drug_deps '' i''))) < 2"
    by (simp add: drug_deps_def js_trim_def isWhiteSpace_def)
  from short_input_is_idle[OF refl short] show ?thesis by blast
qed

lemma effect_request:
  assumes "2 \<le> length (js_trim (query d))"
    and "buildQuery (js_trim (query d)) (predicate d) (lang d) = Inr sparql"
  shows "effect d h =
     (run_cleanup h)\<lparr>state := (state h)\<lparr>loading := True, error := None, info := None\<rparr>,
        controllers := Suc (controllers h), cleanup := Some (controllers h),
        pending := controllers h # pending h,
        calls := calls h @ [(controllers h, endpoint d, sparql)]\<rparr>"
  using assms
  by (simp add: effect_def run_effect_def Let_def
        state_run_cleanup controllers_run_cleanup pending_run_cleanup calls_run_cleanup)

lemma trim_ib: "js_trim ''ib'' = ''ib''"
  by (simp add: js_trim_def isWhiteSpace_def)

lemma trim_ibu: "js_trim ''ibu'' = ''ibu''"
  by (simp add: js_trim_def isWhiteSpace_def)

lemma effect_drug:
  assumes "2 \<le> length (js_trim q)"
  shows "effect (drug_deps q) h =
     (run_cleanup h)\<lparr>state := (state h)\<lparr>loading := True, error := None, info := None\<rparr>,
        controllers := Suc (controllers h), cleanup := Some (controllers h),
        pending := controllers h # pending h,
        calls := calls h @ [(controllers h, ''/graphdb/repositories/dakikg'',
           js_replace ''qLang'' ''en'' (js_replace ''qPred'' ''rdfs:label''
             (js_replace ''q0'' (escapeSparqlStringLiteral (js_trim q)) SPARQL_TEMPLATE)))]\<rparr>"
  using effect_request[of "drug_deps q" _ h] assms
  by (simp add: drug_deps_def buildQuery_drug)

lemma effect_drug_ib:
  "effect (drug_deps ''ib'') h =
     (run_cleanup h)\<lparr>state := (state h)\<lparr>loading := True, error := None, info := None\<rparr>,
        controllers := Suc (controllers h), cleanup := Some (controllers h),
        pending := controllers h # pending h,
        calls := calls h @ [(controllers h, ''/graphdb/repositories/dakikg'',
           js_replace ''qLang'' ''en'' (js_replace ''qPred'' ''rdfs:label''
             (js_replace ''q0'' (escapeSparqlStringLiteral ''ib'') SPARQL_TEMPLATE)))]\<rparr>"
  using effect_request[of "drug_deps ''ib''" _ h]
  by (simp add: drug_deps_def trim_ib buildQuery_drug)

text \<open>
  C3. A request is pending and the effect runs again (a new request, or none on a short
  text); whatever happens later, the settling of the earlier request, with whatever the
  network did (a response or a failure), leaves the state as it is. The settling of the
  request of the last run is what sets the state. A request whose signal is aborted never
  changes the state, so an abort never shows as an error.
\<close>

theorem superseded_request_is_discarded:
  assumes "h = hook_run hook_init evs" and "r \<in> set (pending h)"
    and "h' = hook_run (effect d h) later"
  shows "state (settle r outcome h') = state h'
       \<and> (\<forall>r'. cleanup h' = Some r' \<and> r' \<in> set (pending h') \<longrightarrow>
            state (settle r' outcome h') =
              (case fetchSparql_settled False outcome of
                 Inr data \<Rightarrow> on_fulfilled data
               | Inl err \<Rightarrow> on_rejected err (state h')))
       \<and> (\<forall>r'. r' \<in> set (aborted h') \<longrightarrow> state (settle r' outcome h') = state h')
       \<and> on_rejected AbortError (state h') = state h'"
proof -
  have inv: "hook_inv h" using assms(1) by (simp add: hook_inv_reachable)
  then have inv': "hook_inv h'" using assms(3) by (simp add: hook_inv_effect hook_inv_run)
  have "r < controllers h" using inv assms(2) by (rule pending_lt)
  then have "r < controllers (effect d h) \<and> cleanup (effect d h) \<noteq> Some r"
    by (rule effect_supersedes)
  then have "cleanup h' \<noteq> Some r"
    using later_not_current_run[of r "effect d h" later] assms(3) by simp
  then have a: "state (settle r outcome h') = state h'"
    by (rule settle_superseded[OF inv'])
  have b: "state (settle r' outcome h') =
              (case fetchSparql_settled False outcome of
                 Inr data \<Rightarrow> on_fulfilled data
               | Inl err \<Rightarrow> on_rejected err (state h'))"
    if "cleanup h' = Some r'" "r' \<in> set (pending h')" for r'
    using settle_current[OF inv' that] .
  have c: "state (settle r' outcome h') = state h'" if "r' \<in> set (aborted h')" for r'
    using that
    by (cases "r' \<in> set (pending h')")
       (simp_all add: settle_def fetchSparql_settled_def AbortError_def on_rejected_def)
  have d: "on_rejected AbortError (state h') = state h'"
    by (simp add: on_rejected_def AbortError_def)
  from a b c d show ?thesis by blast
qed

lemma run_one: "hook_run h [ev] = hook_step h ev"
  by (simp add: hook_run_def)

lemma run_nil: "hook_run h [] = h"
  by (simp add: hook_run_def)

lemma pending_first_ib: "pending (hook_run hook_init [Effect (drug_deps ''ib'')]) = [0]"
  by (simp add: run_one effect_drug_ib hook_init_def run_cleanup_def)

lemma loading_ibu:
  "state (hook_run (effect (drug_deps ''ibu'') (hook_run hook_init [Effect (drug_deps ''ib'')])) []) =
     \<lparr>loading = True, error = None, info = None, results = []\<rparr>"
  by (simp add: hook_run_def effect_drug trim_ib trim_ibu hook_init_def run_cleanup_def)

theorem superseded_request_is_discarded_witness:
  "0 \<in> set (pending (hook_run hook_init [Effect (drug_deps ''ib'')]))
   \<and> state (settle 0 (Response one_row_response)
       (hook_run (effect (drug_deps ''ibu'') (hook_run hook_init [Effect (drug_deps ''ib'')])) []))
     = \<lparr>loading = True, error = None, info = None, results = []\<rparr>"
proof -
  have p: "0 \<in> set (pending (hook_run hook_init [Effect (drug_deps ''ib'')]))"
    by (simp add: pending_first_ib)
  from superseded_request_is_discarded[OF refl p refl, THEN conjunct1, of "Response one_row_response"
      "drug_deps ''ibu''" "[]"] p
  show ?thesis by (simp only: loading_ibu simp_thms)
qed

lemma settle_current_reachable:
  assumes "h = hook_run hook_init evs" and "cleanup h = Some r" and "r \<in> set (pending h)"
  shows "state (settle r outcome h) =
     (case fetchSparql_settled False outcome of
        Inr data \<Rightarrow> on_fulfilled data
      | Inl err \<Rightarrow> on_rejected err (state h))"
  using settle_current[OF _ assms(2,3)] assms(1) by (simp add: hook_inv_reachable)

text \<open>
  C8. The request of the last run of the effect is answered with a 2xx status and a
  payload that holds no binding rows: the state becomes the info message
  \<open>No matches found.\<close> with no rows, no error and not loading.
\<close>

theorem empty_result_is_info:
  assumes "h = hook_run hook_init evs" and "cleanup h = Some r" and "r \<in> set (pending h)"
    and "response_ok resp" and "body_json resp = Inr payload" and "payload_bindings payload = []"
  shows "state (settle r (Response resp) h) =
           \<lparr>loading = False, error = None, info = Some ''No matches found.'', results = []\<rparr>"
  using assms(4-6)
  by (simp add: settle_current_reachable[OF assms(1-3)] fetchSparql_settled_def
        fetchSparql_response_def on_fulfilled_def)

lemma first_ib:
  "hook_run hook_init [Effect (drug_deps ''ib'')] =
     hook_init\<lparr>state := \<lparr>loading = True, error = None, info = None, results = []\<rparr>,
        controllers := 1, cleanup := Some 0, pending := [0],
        calls := [(0, ''/graphdb/repositories/dakikg'',
           js_replace ''qLang'' ''en'' (js_replace ''qPred'' ''rdfs:label''
             (js_replace ''q0'' (escapeSparqlStringLiteral ''ib'') SPARQL_TEMPLATE)))]\<rparr>"
  by (simp add: run_one effect_drug_ib hook_init_def run_cleanup_def)

theorem empty_result_is_info_witness:
  "state (settle 0
      (Response \<lparr>status = 200, statusText = ''OK'', body_text = [],
         body_json = Inr (Some (Payload (Some (SparqlResults (Some [])))))\<rparr>)
      (hook_run hook_init [Effect (drug_deps ''ib'')])) =
     \<lparr>loading = False, error = None, info = Some ''No matches found.'', results = []\<rparr>"
proof -
  have c: "cleanup (hook_run hook_init [Effect (drug_deps ''ib'')]) = Some 0"
    by (simp add: first_ib)
  have p: "0 \<in> set (pending (hook_run hook_init [Effect (drug_deps ''ib'')]))"
    by (simp add: first_ib)
  show ?thesis
    by (rule empty_result_is_info[OF refl c p, where payload = "Some (Payload (Some (SparqlResults (Some []))))"])
       (simp_all add: response_ok_def payload_bindings_def)
qed

text \<open>
  C9. The request of the last run of the effect is answered with a status outside
  200-299: the state becomes an error whose message is \<open>Query failed (\<close>, the status
  code, a space, the status text, \<open>): \<close> and the body, or \<open>No response body.\<close> when
  the body is empty. So the message contains the code, the status text and the body; for
  status 500 and body \<open>Internal error\<close> it contains \<open>500\<close> and \<open>Internal error\<close>.
\<close>

theorem http_error_is_reported:
  assumes "h = hook_run hook_init evs" and "cleanup h = Some r" and "r \<in> set (pending h)"
    and "\<not> response_ok resp"
  shows "state (settle r (Response resp) h) =
           \<lparr>loading = False,
            error = Some (''Query failed ('' @ string_of_nat (status resp) @ '' '' @ statusText resp
                          @ ''): '' @ (if body_text resp = [] then ''No response body.''
                                       else body_text resp)),
            info = None, results = []\<rparr>
       \<and> (\<exists>message. error (state (settle r (Response resp) h)) = Some message
             \<and> sublist (string_of_nat (status resp)) message
             \<and> sublist (statusText resp) message
             \<and> sublist (if body_text resp = [] then ''No response body.'' else body_text resp) message)
       \<and> (status resp = 500 \<and> body_text resp = ''Internal error'' \<longrightarrow>
            error (state (settle r (Response resp) h)) =
              Some (''Query failed (500 '' @ statusText resp @ ''): Internal error''))"
proof -
  let ?body = "if body_text resp = [] then ''No response body.'' else body_text resp"
  let ?msg = "''Query failed ('' @ string_of_nat (status resp) @ '' '' @ statusText resp
                          @ ''): '' @ ?body"
  have st: "state (settle r (Response resp) h) =
           \<lparr>loading = False, error = Some ?msg, info = None, results = []\<rparr>"
    using assms(4)
    by (simp add: settle_current_reachable[OF assms(1-3)] fetchSparql_settled_def
          fetchSparql_response_def on_rejected_def)
  have s1: "sublist (string_of_nat (status resp)) ?msg"
    by (rule sublist_appendI)
  have s2: "sublist (statusText resp) ?msg"
    unfolding sublist_def
    by (rule exI[of _ "''Query failed ('' @ string_of_nat (status resp) @ '' ''"],
        rule exI[of _ "''): '' @ ?body"]) simp
  have s3: "sublist ?body ?msg"
    unfolding sublist_def
    by (rule exI[of _ "''Query failed ('' @ string_of_nat (status resp) @ '' '' @ statusText resp @ ''): ''"],
        rule exI[of _ "[]"]) simp
  have five: "string_of_nat 500 = ''500''" by code_simp
  have s4: "error (state (settle r (Response resp) h)) =
              Some (''Query failed (500 '' @ statusText resp @ ''): Internal error'')"
    if "status resp = 500" "body_text resp = ''Internal error''"
    using that st five by simp
  from st s1 s2 s3 s4 show ?thesis by simp
qed

theorem http_error_is_reported_witness:
  "error (state (settle 0
      (Response \<lparr>status = 500, statusText = ''Internal Server Error'',
         body_text = ''Internal error'', body_json = Inl (JsError ''SyntaxError'' ''Unexpected token'')\<rparr>)
      (hook_run hook_init [Effect (drug_deps ''ib'')]))) =
     Some ''Query failed (500 Internal Server Error): Internal error''"
proof -
  have c: "cleanup (hook_run hook_init [Effect (drug_deps ''ib'')]) = Some 0"
    by (simp add: first_ib)
  have p: "0 \<in> set (pending (hook_run hook_init [Effect (drug_deps ''ib'')]))"
    by (simp add: first_ib)
  have n: "\<not> response_ok \<lparr>status = 500, statusText = ''Internal Server Error'',
         body_text = ''Internal error'', body_json = Inl (JsError ''SyntaxError'' ''Unexpected token'')\<rparr>"
    by (simp add: response_ok_def)
  from http_error_is_reported[OF refl c p n, THEN conjunct2, THEN conjunct2] show ?thesis by simp
qed

lemma toRow_one_row:
  "toRow one_row = Inr \<lparr>row_id = ''12345'', row_label = JString ''Ibuprofen''\<rparr>"
  using toRow_string[OF value_of_one_row(1)]
  by (simp add: value_of_one_row(2) after_last_slash_def)

lemma one_row_settled:
  "fetchSparql_settled False (Response one_row_response) =
     Inr (Rows [\<lparr>row_id = ''12345'', row_label = JString ''Ibuprofen''\<rparr>])"
  by (simp add: fetchSparql_settled_def fetchSparql_response_def one_row_response_def
        response_ok_def payload_bindings_def toRow_one_row)

lemma stale_rows_state:
  "state (hook_run hook_init
      [Effect (drug_deps ''ib''), Settle 0 (Response one_row_response), Effect (drug_deps ''ibu'')]) =
     \<lparr>loading = True, error = None, info = None,
      results = [\<lparr>row_id = ''12345'', row_label = JString ''Ibuprofen''\<rparr>]\<rparr>"
  by (simp add: hook_run_def effect_drug trim_ib trim_ibu settle_def one_row_settled
        hook_init_def run_cleanup_def on_fulfilled_def Let_def)

text \<open>
  C1, amended. In every state the hook reaches: while loading there is no error and no
  info message; with an error there is no loading, no info message and no rows; with an
  info message there is no loading, no error and no rows. The settling of the current
  request, unless it is an abort, sets a state that does not depend on the previous
  one. The start of a request sets loading and clears error and info, and keeps the rows
  of the previous state.
\<close>

theorem outcome_shape:
  assumes "h = hook_run hook_init evs"
  shows "(loading (state h) \<longrightarrow> error (state h) = None \<and> info (state h) = None)
       \<and> (error (state h) \<noteq> None \<longrightarrow>
            \<not> loading (state h) \<and> info (state h) = None \<and> results (state h) = [])
       \<and> (info (state h) \<noteq> None \<longrightarrow>
            \<not> loading (state h) \<and> error (state h) = None \<and> results (state h) = [])
       \<and> (cleanup h = Some r \<and> r \<in> set (pending h) \<and>
            (\<forall>err. fetchSparql_settled False outcome = Inl err \<longrightarrow> err_name err \<noteq> ''AbortError'') \<longrightarrow>
            (\<forall>previous. state (settle r outcome (h\<lparr>state := previous\<rparr>)) = state (settle r outcome h)))
       \<and> (2 \<le> length (js_trim (query d)) \<and>
            \<not> isl (buildQuery (js_trim (query d)) (predicate d) (lang d)) \<longrightarrow>
            state (effect d h) = (state h)\<lparr>loading := True, error := None, info := None\<rparr>)"
proof -
  have "state_inv (state h)"
    using assms by (simp add: state_inv_run state_inv_init)
  then have a: "(loading (state h) \<longrightarrow> error (state h) = None \<and> info (state h) = None)
       \<and> (error (state h) \<noteq> None \<longrightarrow>
            \<not> loading (state h) \<and> info (state h) = None \<and> results (state h) = [])
       \<and> (info (state h) \<noteq> None \<longrightarrow>
            \<not> loading (state h) \<and> error (state h) = None \<and> results (state h) = [])"
    unfolding state_inv_def .
  have inv: "hook_inv h" using assms by (simp add: hook_inv_reachable)
  have b: "state (settle r outcome (h\<lparr>state := previous\<rparr>)) = state (settle r outcome h)"
    if c: "cleanup h = Some r" and p: "r \<in> set (pending h)"
      and n: "\<forall>err. fetchSparql_settled False outcome = Inl err \<longrightarrow> err_name err \<noteq> ''AbortError''"
    for previous
  proof -
    have na: "r \<notin> set (aborted h)" using inv c by (rule current_not_aborted)
    show ?thesis
    proof (cases "fetchSparql_settled False outcome")
      case (Inl err)
      with n have "err_name err \<noteq> ''AbortError''" by simp
      with Inl p na show ?thesis by (simp add: settle_def Let_def on_rejected_def)
    next
      case (Inr data)
      with p na show ?thesis by (simp add: settle_def Let_def)
    qed
  qed
  have e: "state (effect d h) = (state h)\<lparr>loading := True, error := None, info := None\<rparr>"
    if "2 \<le> length (js_trim (query d))"
      and "\<not> isl (buildQuery (js_trim (query d)) (predicate d) (lang d))"
    using that
    by (cases "buildQuery (js_trim (query d)) (predicate d) (lang d)") (simp_all add: state_effect)
  from a b e show ?thesis by blast
qed

lemma after_one_row:
  "state (hook_run hook_init [Effect (drug_deps ''ib''), Settle 0 (Response one_row_response)]) =
     \<lparr>loading = False, error = None, info = None,
      results = [\<lparr>row_id = ''12345'', row_label = JString ''Ibuprofen''\<rparr>]\<rparr>"
  by (simp add: hook_run_def effect_drug trim_ib settle_def one_row_settled
        hook_init_def run_cleanup_def on_fulfilled_def Let_def)

theorem outcome_shape_witness:
  "loading (state (hook_run hook_init
      [Effect (drug_deps ''ib''), Settle 0 (Response one_row_response), Effect (drug_deps ''ibu'')]))
   \<and> error (state (hook_run hook_init
      [Effect (drug_deps ''ib''), Settle 0 (Response one_row_response), Effect (drug_deps ''ibu'')])) = None
   \<and> info (state (hook_run hook_init
      [Effect (drug_deps ''ib''), Settle 0 (Response one_row_response), Effect (drug_deps ''ibu'')])) = None
   \<and> state (effect (drug_deps ''ibu'')
        (hook_run hook_init [Effect (drug_deps ''ib''), Settle 0 (Response one_row_response)])) =
     \<lparr>loading = True, error = None, info = None,
      results = [\<lparr>row_id = ''12345'', row_label = JString ''Ibuprofen''\<rparr>]\<rparr>"
proof -
  have l: "loading (state (hook_run hook_init
      [Effect (drug_deps ''ib''), Settle 0 (Response one_row_response), Effect (drug_deps ''ibu'')]))"
    by (simp add: stale_rows_state)
  have q: "2 \<le> length (js_trim (query (drug_deps ''ibu'')))"
    by (simp add: drug_deps_def trim_ibu)
  have b: "\<not> isl (buildQuery (js_trim (query (drug_deps ''ibu''))) (predicate (drug_deps ''ibu''))
             (lang (drug_deps ''ibu'')))"
    by (simp add: drug_deps_def buildQuery_drug)
  have k: "state (effect (drug_deps ''ibu'')
        (hook_run hook_init [Effect (drug_deps ''ib''), Settle 0 (Response one_row_response)])) =
     \<lparr>loading = True, error = None, info = None,
      results = [\<lparr>row_id = ''12345'', row_label = JString ''Ibuprofen''\<rparr>]\<rparr>"
    using outcome_shape[OF refl, THEN conjunct2, THEN conjunct2, THEN conjunct2, THEN conjunct2,
        of "drug_deps ''ibu''"
           "[Effect (drug_deps ''ib''), Settle 0 (Response one_row_response)]"] q b
    by (simp add: after_one_row)
  from outcome_shape[OF refl, THEN conjunct1] l k show ?thesis by blast
qed

text \<open>
  C1 as stated fails: after a search has returned a row, the start of the next request
  gives a state that is loading and still holds that row.
\<close>

theorem loading_with_rows_counterexample:
  "loading (state (hook_run hook_init
      [Effect (drug_deps ''ib''), Settle 0 (Response one_row_response), Effect (drug_deps ''ibu'')]))
   \<and> results (state (hook_run hook_init
      [Effect (drug_deps ''ib''), Settle 0 (Response one_row_response), Effect (drug_deps ''ibu'')])) =
     [\<lparr>row_id = ''12345'', row_label = JString ''Ibuprofen''\<rparr>]"
  by (simp add: stale_rows_state)

section \<open>Debounce\<close>

lemma panel_run_Cons: "panel_run p (ev # evs) = panel_run (panel_step p ev) evs"
  by (simp add: panel_run_def)

lemma panel_run_Nil: "panel_run p [] = p"
  by (simp add: panel_run_def)

lemma panel_run_append: "panel_run p (evs @ evs') = panel_run (panel_run p evs) evs'"
  by (simp add: panel_run_def)

lemma burst_run:
  "rapid (input_text p) v rest \<Longrightarrow>
   panel_run p (burst v rest) =
     p\<lparr>input_text := last_typed v rest, timer := Some (delayMs, last_typed v rest)\<rparr>"
proof (induction rest arbitrary: p v)
  case Nil
  then show ?case by (simp add: panel_run_Cons panel_run_Nil)
next
  case (Cons gw rest)
  obtain gap w where gw: "gw = (gap, w)" by (cases gw)
  from Cons.prems have v: "v \<noteq> input_text p" and g: "gap < delayMs" and r: "rapid v w rest"
    by (simp_all add: gw)
  let ?p2 = "p\<lparr>input_text := v, timer := Some (delayMs - gap, v)\<rparr>"
  have step: "panel_step (panel_step p (Type v)) (Elapse gap) = ?p2"
    using v g by simp
  have "rapid (input_text ?p2) w rest" using r by simp
  from Cons.IH[OF this] show ?case
    using step by (simp add: gw panel_run_Cons)
qed

text \<open>
  C6, amended. A rapid burst of changes of the input (each less than the delay after
  the one before) calls \<open>fetch\<close> for none of its values while it lasts. Once the delay
  has passed after the last change, \<open>fetch\<close> has been called at most once: exactly once,
  with the query built from the trimmed last value, when that value differs from the
  text debounced before the burst, its trimmed length is at least 2 and \<open>buildQuery\<close>
  accepts the arguments; not at all otherwise. No timeout stays armed.
\<close>

theorem debounce_coalesces:
  assumes "rapid (input_text p) v rest" and "delayMs \<le> ms"
  shows "calls (search (panel_run p (burst v rest))) = calls (search p)
       \<and> timer (panel_run p (burst v rest)) = Some (delayMs, last_typed v rest)
       \<and> calls (search (panel_run p (burst v rest @ [Elapse ms]))) =
           calls (search p) @
           (if last_typed v rest = debounced p \<or> length (js_trim (last_typed v rest)) < 2 then []
            else (case buildQuery (js_trim (last_typed v rest)) (panel_predicate p) (panel_lang p) of
                    Inl err \<Rightarrow> []
                  | Inr sparql \<Rightarrow> [(controllers (search p), panel_endpoint p, sparql)]))
       \<and> timer (panel_run p (burst v rest @ [Elapse ms])) = None"
proof -
  let ?last = "last_typed v rest"
  have b: "panel_run p (burst v rest) = p\<lparr>input_text := ?last, timer := Some (delayMs, ?last)\<rparr>"
    using assms(1) by (rule burst_run)
  have f: "panel_run p (burst v rest @ [Elapse ms]) =
      setDebounced ?last (p\<lparr>input_text := ?last, timer := None\<rparr>)"
    using assms(2) by (simp add: panel_run_append b panel_run_Cons panel_run_Nil)
  have c: "calls (search (setDebounced ?last (p\<lparr>input_text := ?last, timer := None\<rparr>))) =
           calls (search p) @
           (if ?last = debounced p \<or> length (js_trim ?last) < 2 then []
            else (case buildQuery (js_trim ?last) (panel_predicate p) (panel_lang p) of
                    Inl err \<Rightarrow> []
                  | Inr sparql \<Rightarrow> [(controllers (search p), panel_endpoint p, sparql)]))"
    by (simp add: setDebounced_def Let_def calls_effect panel_deps_def split: sum.splits)
  have t: "timer (setDebounced ?last (p\<lparr>input_text := ?last, timer := None\<rparr>)) = None"
    by (simp add: setDebounced_def Let_def)
  from b f c t show ?thesis by simp
qed

lemma mounted_panel:
  "panel_mounted url pred l =
     \<lparr>input_text = [], timer = Some (delayMs, []), debounced = [],
      panel_endpoint = url, panel_predicate = pred, panel_lang = l, search = hook_init\<rparr>"
  by (simp add: panel_mounted_def Let_def panel_deps_def effect_def run_effect_def
        run_cleanup_def hook_init_def js_trim_def)

lemma trim_i0: "js_trim ''i'' = ''i''"
  by (simp add: js_trim_def isWhiteSpace_def)

theorem debounce_coalesces_witness:
  "calls (search (panel_run (panel_mounted ''/graphdb/repositories/dakikg'' ''rdfs:label'' ''en'')
      (burst ''i'' [(50, ''ib''), (50, ''ibu'')]))) = []
   \<and> calls (search (panel_run (panel_mounted ''/graphdb/repositories/dakikg'' ''rdfs:label'' ''en'')
      (burst ''i'' [(50, ''ib''), (50, ''ibu'')] @ [Elapse 200]))) =
     [(0, ''/graphdb/repositories/dakikg'',
       js_replace ''qLang'' ''en'' (js_replace ''qPred'' ''rdfs:label''
         (js_replace ''q0'' (escapeSparqlStringLiteral ''ibu'') SPARQL_TEMPLATE)))]"
proof -
  have r: "rapid (input_text (panel_mounted ''/graphdb/repositories/dakikg'' ''rdfs:label'' ''en'')) ''i''
             [(50, ''ib''), (50, ''ibu'')]"
    by (simp add: mounted_panel delayMs_def)
  have m: "delayMs \<le> 200" by (simp add: delayMs_def)
  from debounce_coalesces[OF r m] show ?thesis
    by (simp add: mounted_panel trim_ibu buildQuery_drug hook_init_def)
qed

text \<open>
  C6 as stated fails: a rapid burst that ends on a text of one character calls \<open>fetch\<close>
  not once but never.
\<close>

theorem short_last_value_counterexample:
  "rapid (input_text (panel_mounted ''/graphdb/repositories/dakikg'' ''rdfs:label'' ''en'')) ''ibu''
     [(50, ''ib''), (50, ''i'')]
   \<and> calls (search (panel_run (panel_mounted ''/graphdb/repositories/dakikg'' ''rdfs:label'' ''en'')
      (burst ''ibu'' [(50, ''ib''), (50, ''i'')] @ [Elapse 200]))) = []"
  by (simp add: mounted_panel delayMs_def panel_run_def setDebounced_def Let_def panel_deps_def
        calls_effect trim_i0 hook_init_def)

end
